theory Spec2Isabelle
  imports Main "HOL-Library.Sublist"
begin

section \<open>Text operations of the worker\<close>

text \<open>
  A JavaScript string is a \<^typ>\<open>string\<close>, one \<^typ>\<open>char\<close> per code unit; the model
  covers the code units below 256. The functions below are the string methods that
  \<^verbatim>\<open>src/worker.ts\<close> calls: \<^verbatim>\<open>includes\<close>, \<^verbatim>\<open>endsWith\<close>, \<^verbatim>\<open>replaceAll\<close>,
  \<^verbatim>\<open>trim\<close>, \<^verbatim>\<open>toLowerCase\<close> and \<^verbatim>\<open>Array.prototype.join\<close>.
\<close>

fun starts_with :: "string \<Rightarrow> string \<Rightarrow> bool" where
  "starts_with s [] = True"
| "starts_with [] (p # ps) = False"
| "starts_with (c # cs) (p # ps) = (c = p \<and> starts_with cs ps)"

fun includesStr :: "string \<Rightarrow> string \<Rightarrow> bool" where
  "includesStr [] p = (p = [])"
| "includesStr (c # cs) p = (starts_with (c # cs) p \<or> includesStr cs p)"

definition endsWith :: "string \<Rightarrow> string \<Rightarrow> bool" where
  "endsWith s p = starts_with (rev s) (rev p)"

function replaceAll :: "string \<Rightarrow> string \<Rightarrow> string \<Rightarrow> string" where
  "replaceAll [] pat rep = (if pat = [] then rep else [])"
| "replaceAll (c # cs) pat rep =
     (if pat = [] then rep @ c # replaceAll cs pat rep
      else if starts_with (c # cs) pat
        then rep @ replaceAll (drop (length pat) (c # cs)) pat rep
      else c # replaceAll cs pat rep)"
  by pat_completeness auto
termination
  by (relation "measure (\<lambda>(s, pat, rep). length s)") (auto simp: neq_Nil_conv)

definition is_space :: "char \<Rightarrow> bool" where
  "is_space c = (c \<in> set [CHR 0x09, CHR 0x0A, CHR 0x0B, CHR 0x0C, CHR 0x0D, CHR 0x20, CHR 0xA0])"

definition trim :: "string \<Rightarrow> string" where
  "trim s = rev (dropWhile is_space (rev (dropWhile is_space s)))"

definition lower_char :: "char \<Rightarrow> char" where
  "lower_char c =
     (let n = (of_char c :: nat) in
      if (65 \<le> n \<and> n \<le> 90) \<or> (192 \<le> n \<and> n \<le> 222 \<and> n \<noteq> 215)
      then char_of (n + 32) else c)"

definition toLowerCase :: "string \<Rightarrow> string" where
  "toLowerCase s = map lower_char s"

fun join :: "string list \<Rightarrow> string \<Rightarrow> string" where
  "join [] sep = []"
| "join [x] sep = x"
| "join (x # y # ys) sep = x @ sep @ join (y # ys) sep"

section \<open>Model identifiers\<close>

definition DEFAULT :: string where
  "DEFAULT = ''@cf/meta/llama-3.3-70b-instruct-fp8-fast''"

definition fallback :: string where
  "fallback = ''@cf/meta/llama-3.1-8b-instruct-fast''"

text \<open>
  \<^verbatim>\<open>resolveModel(model?: string)\<close>: the argument is a string or absent; \<^verbatim>\<open>!model\<close>
  holds for the absent argument and for the empty string.
\<close>

definition resolveModel :: "string option \<Rightarrow> string" where
  "resolveModel model =
     (case model of
        None \<Rightarrow> DEFAULT
      | Some md \<Rightarrow>
          if md = [] then DEFAULT
          else (let m = toLowerCase md in
                if m = ''gpt-5'' \<or> m = ''gpt5'' \<or> m = ''gpt-4.1'' then DEFAULT
                else md))"

section \<open>Messages and prompts\<close>

text \<open>
  A message is the object \<^verbatim>\<open>{ role, content }\<close>; an entry of the stored history also
  has the time stamp \<^verbatim>\<open>ts\<close> that the Durable Object adds, and keeps it when the
  worker pushes the entry (\<^verbatim>\<open>h as any\<close>) onto a message sequence.
\<close>

record message =
  role :: string
  content :: string
  ts :: "nat option"

definition END :: string where
  "END = ''<<<END_OF_RECIPE>>>''"

definition buildSystemPrompt :: string where
  "buildSystemPrompt = join
     [''You are a helpful, safety-conscious recipe generator.'',
      ''Given a list of ingredients the user has on hand, produce:'',
      ''- a recipe title'',
      ''- 1-2 sentence summary'',
      ''- ingredients list (quantities if possible)'',
      ''- step-by-step instructions'',
      ''- optional tips and substitutions'',
      ''Format as plain text with clear sections.'',
      ''At the very end of your response, append a single line containing '' @ END
        @ ''. Do not output anything after this marker.'']
     ''\<newline>''"

definition userPromptFromInputs :: "string list \<Rightarrow> string option \<Rightarrow> string" where
  "userPromptFromInputs ingredients extras =
     (let list = join (map (\<lambda>s. ''- '' @ trim s) ingredients) ''\<newline>'';
          extra = (case extras of
                     None \<Rightarrow> []
                   | Some x \<Rightarrow> if trim x \<noteq> []
                       then ''\<newline>Constraints or preferences: '' @ trim x else [])
      in ''Here are the ingredients I have:\<newline>'' @ list @ extra
         @ ''\<newline>Generate one approachable recipe. If crucial items are missing, suggest substitutions.'')"

definition system_message :: message where
  "system_message = \<lparr>role = ''system'', content = buildSystemPrompt, ts = None\<rparr>"

text \<open>
  The loop \<^verbatim>\<open>for (const h of history ?? []) if (h.role === "user" || h.role === "assistant")
  msgs.push(h)\<close>, which both the first call and every continuation call run on a
  sequence that holds the system message.
\<close>

definition push_history :: "message list \<Rightarrow> message list \<Rightarrow> message list" where
  "push_history msgs history =
     foldl (\<lambda>acc h. if role h = ''user'' \<or> role h = ''assistant'' then acc @ [h] else acc)
       msgs history"

definition build_messages :: "message list \<Rightarrow> message \<Rightarrow> message list" where
  "build_messages history userMsg = push_history [system_message] history @ [userMsg]"

definition contMsgs :: "message list \<Rightarrow> message \<Rightarrow> string \<Rightarrow> string \<Rightarrow> message list" where
  "contMsgs history userMsg full prompt =
     push_history [system_message] history
       @ [userMsg,
          \<lparr>role = ''assistant'', content = full, ts = None\<rparr>,
          \<lparr>role = ''user'', content = prompt, ts = None\<rparr>]"

definition primary_prompt :: string where
  "primary_prompt = ''Continue exactly where you left off. Do not repeat completed sections. Finish any remaining sections. When you are completely finished, append the end marker '' @ END @ ''.''"

definition fallback_prompt :: string where
  "fallback_prompt = ''Continue exactly where you left off and finish with '' @ END @ ''. Do not repeat.''"

section \<open>The session store (class SessionDO)\<close>

text \<open>
  The storage of one Durable Object is the value under the key \<^verbatim>\<open>history\<close>, absent
  until the first append and after a reset.
\<close>

type_synonym do_storage = "message list option"

datatype do_response = HistoryBody "message list" | BadRequest | Appended nat | ResetOk

definition slice_last :: "nat \<Rightarrow> 'a list \<Rightarrow> 'a list" where
  "slice_last n xs = drop (length xs - n) xs"

definition do_history :: "do_storage \<Rightarrow> do_response \<times> do_storage" where
  "do_history st = (HistoryBody (case st of None \<Rightarrow> [] | Some h \<Rightarrow> h), st)"

definition do_append :: "do_storage \<Rightarrow> string \<Rightarrow> string \<Rightarrow> nat \<Rightarrow> do_response \<times> do_storage" where
  "do_append st r c now =
     (if r = [] \<or> c = [] then (BadRequest, st)
      else (let history = (case st of None \<Rightarrow> [] | Some h \<Rightarrow> h)
                            @ [\<lparr>role = r, content = c, ts = Some now\<rparr>];
                trimmed = slice_last 20 history
            in (Appended (length trimmed), Some trimmed)))"

definition do_reset :: "do_storage \<Rightarrow> do_response \<times> do_storage" where
  "do_reset st = (ResetOk, None)"

section \<open>The collaborators of the worker\<close>

text \<open>
  A thrown value is represented by the text \<^verbatim>\<open>String(err?.message || err)\<close>, the only
  thing the handlers read of it.

  The value that \<^verbatim>\<open>env.AI.run\<close> resolves to for a call with \<^verbatim>\<open>stream: false\<close>:
  \<^item> \<open>AiNullish x\<close>: null or undefined; reading \<^verbatim>\<open>.response\<close> of it throws \<open>x\<close>;
  \<^item> \<open>AiString s\<close>: a string;
  \<^item> \<open>AiObject response output_text json\<close>: an object with its two text fields, each
    a string or absent (null or undefined), and the text \<open>json\<close> that
    \<^verbatim>\<open>JSON.stringify\<close> gives for it.
  For a call with \<^verbatim>\<open>stream: true\<close> the client resolves to a stream, given by its
  chunks and by whether it ends in an error, or the call throws; a value that has no
  \<^verbatim>\<open>tee\<close> method counts as a throw, which is what \<^verbatim>\<open>aiStream.tee()\<close> does in the
  same \<^verbatim>\<open>try\<close> block.
\<close>

type_synonym exn = string

datatype ai_result = AiNullish exn | AiString string | AiObject "string option" "string option" string

record ai_stream =
  chunks :: "string list"
  stream_error :: "exn option"

text \<open>
  The environment of one request. The inference client may answer each call
  differently: both clients take the number of inference calls issued before this
  one, then the model and the options \<^verbatim>\<open>messages\<close> and \<^verbatim>\<open>max_tokens\<close>
  (\<^verbatim>\<open>temperature\<close> and \<^verbatim>\<open>top_p\<close> are the same in every call). \<open>stub_rejects n\<close>
  says whether the request number \<open>n\<close> to the Durable Object stub rejects, in which
  case the object has not handled it; \<open>clock n\<close> is \<^verbatim>\<open>Date.now()\<close> during request
  \<open>n\<close>.
\<close>

record env =
  ai_run :: "nat \<Rightarrow> string \<Rightarrow> message list \<Rightarrow> nat \<Rightarrow> exn + ai_result"
  ai_run_stream :: "nat \<Rightarrow> string \<Rightarrow> message list \<Rightarrow> nat \<Rightarrow> exn + ai_stream"
  stub_rejects :: "nat \<Rightarrow> exn option"
  clock :: "nat \<Rightarrow> nat"

datatype store_request = GetHistory | Append string string | Reset

record call =
  call_model :: string
  call_messages :: "message list"
  call_stream :: bool
  call_max_tokens :: nat

text \<open>
  The state that a request changes: the storage of the session's Durable Object, and
  the inference calls and the stub requests issued so far, oldest first.
\<close>

record world =
  storage :: do_storage
  calls :: "call list"
  store_log :: "store_request list"

definition stub_history :: "env \<Rightarrow> world \<Rightarrow> (exn + message list) \<times> world" where
  "stub_history e w =
     (let w' = w\<lparr>store_log := store_log w @ [GetHistory]\<rparr> in
      case stub_rejects e (length (store_log w)) of
        Some x \<Rightarrow> (Inl x, w')
      | None \<Rightarrow> (case fst (do_history (storage w)) of
                   HistoryBody h \<Rightarrow> (Inr h, w')
                 | _ \<Rightarrow> (Inr [], w')))"

definition stub_append :: "env \<Rightarrow> string \<Rightarrow> string \<Rightarrow> world \<Rightarrow> (exn + unit) \<times> world" where
  "stub_append e r c w =
     (let n = length (store_log w);
          w' = w\<lparr>store_log := store_log w @ [Append r c]\<rparr> in
      case stub_rejects e n of
        Some x \<Rightarrow> (Inl x, w')
      | None \<Rightarrow> (Inr (), w'\<lparr>storage := snd (do_append (storage w) r c (clock e n))\<rparr>))"

definition stub_reset :: "env \<Rightarrow> world \<Rightarrow> (exn + unit) \<times> world" where
  "stub_reset e w =
     (let w' = w\<lparr>store_log := store_log w @ [Reset]\<rparr> in
      case stub_rejects e (length (store_log w)) of
        Some x \<Rightarrow> (Inl x, w')
      | None \<Rightarrow> (Inr (), w'\<lparr>storage := snd (do_reset (storage w))\<rparr>))"

section \<open>The request body\<close>

text \<open>
  \<^verbatim>\<open>await request.json().catch(() => ({}))\<close> gives the parsed JSON value, or the empty
  object when the body does not parse. The value \<^verbatim>\<open>null\<close> is a body of its own:
  reading a property of it throws. Every other value that is not an object has none of
  the fields and is read as the empty object is. The handlers cast the value to
  \<^verbatim>\<open>any\<close> and read three fields of it:
  \<^item> \<^verbatim>\<open>ingredients\<close>: absent, not an array, or an array; an element of the array is a
    string, or it is not, and then calling \<^verbatim>\<open>trim\<close> on it throws the error that
    \<open>NonString\<close> carries;
  \<^item> \<^verbatim>\<open>extras\<close>, when it is a string;
  \<^item> \<^verbatim>\<open>model\<close>: a string; or absent, which stands for undefined and for the values
    other than strings that \<^verbatim>\<open>!model\<close> holds for (null, false, 0); or another value,
    which has no \<^verbatim>\<open>toLowerCase\<close>.
\<close>

datatype element = Str string | NonString exn

datatype ingredients_field = IngAbsent | IngNotArray | IngArray "element list"

datatype model_value = ModelAbsent | ModelString string | ModelOther

record fields =
  ingredients_field :: ingredients_field
  extras_field :: "string option"
  model_field :: model_value

datatype body = Unparsable | JsonNull | Parsed fields

definition body_fields :: "body \<Rightarrow> fields" where
  "body_fields b =
     (case b of
        Parsed f \<Rightarrow> f
      | _ \<Rightarrow> \<lparr>ingredients_field = IngAbsent, extras_field = None, model_field = ModelAbsent\<rparr>)"

definition ingredients_of :: "body \<Rightarrow> element list" where
  "ingredients_of b =
     (case ingredients_field (body_fields b) of IngArray xs \<Rightarrow> xs | _ \<Rightarrow> [])"

text \<open>
  The exception of \<^verbatim>\<open>(body as any).ingredients\<close> for the body \<^verbatim>\<open>null\<close>, and the
  call \<^verbatim>\<open>resolveModel((body as any).model)\<close>: \<^verbatim>\<open>resolveModel\<close> on a string or on
  nothing, and the exception of \<^verbatim>\<open>model.toLowerCase()\<close> on another value.
\<close>

definition null_body_error :: exn where
  "null_body_error = ''Cannot read properties of null (reading 'ingredients')''"

definition model_arg :: "model_value \<Rightarrow> string option" where
  "model_arg v = (case v of ModelString s \<Rightarrow> Some s | _ \<Rightarrow> None)"

definition resolve_field :: "model_value \<Rightarrow> exn + string" where
  "resolve_field v =
     (case v of
        ModelOther \<Rightarrow> Inl ''model.toLowerCase is not a function''
      | _ \<Rightarrow> Inr (resolveModel (model_arg v)))"

text \<open>
  The call \<^verbatim>\<open>userPromptFromInputs(ingredients, extras)\<close> on the elements of the body:
  \<^verbatim>\<open>ingredients.map((s) => `- ${s.trim()}`)\<close> throws at the first element that is not
  a string; with strings only, the call is \<^verbatim>\<open>userPromptFromInputs\<close> on them.
\<close>

fun prompt_error :: "element list \<Rightarrow> exn option" where
  "prompt_error [] = None"
| "prompt_error (Str s # xs) = prompt_error xs"
| "prompt_error (NonString x # xs) = Some x"

fun strings_of :: "element list \<Rightarrow> string list" where
  "strings_of [] = []"
| "strings_of (Str s # xs) = s # strings_of xs"
| "strings_of (NonString x # xs) = strings_of xs"

section \<open>The non-streaming endpoint\<close>

text \<open>
  What the handler returns: a JSON error with its status, message and detail, the JSON
  body \<^verbatim>\<open>{ model, recipe, note }\<close>, the live stream, the body \<^verbatim>\<open>{ ok: true }\<close> of a reset, or an exception that no
  \<^verbatim>\<open>try\<close> block of the handler catches.
\<close>

datatype response =
    ErrorResponse nat string "string option"
  | RecipeResponse string string "string option"
  | StreamResponse ai_stream
  | OkResponse
  | Uncaught exn

text \<open>
  \<^verbatim>\<open>runOnce\<close>: one inference call and the text read from its result. The last
  alternative of the \<^verbatim>\<open>??\<close> chain is \<^verbatim>\<open>JSON.stringify(result)\<close> in the first
  attempt (\<open>json = True\<close>) and \<^verbatim>\<open>String(result)\<close> in the fallback attempt and in
  the streaming endpoint.
\<close>

definition response_text :: "bool \<Rightarrow> ai_result \<Rightarrow> exn + string" where
  "response_text json res =
     (case res of
        AiNullish x \<Rightarrow> Inl x
      | AiString s \<Rightarrow> Inr s
      | AiObject resp out js \<Rightarrow>
          (case resp of
             Some r \<Rightarrow> Inr r
           | None \<Rightarrow> (case out of
                        Some t \<Rightarrow> Inr t
                      | None \<Rightarrow> Inr (if json then js else ''[object Object]''))))"

definition text_call :: "string \<Rightarrow> message list \<Rightarrow> nat \<Rightarrow> call" where
  "text_call md msgs max_tokens =
     \<lparr>call_model = md, call_messages = msgs, call_stream = False, call_max_tokens = max_tokens\<rparr>"

definition runOnce :: "env \<Rightarrow> string \<Rightarrow> bool \<Rightarrow> nat \<Rightarrow> message list \<Rightarrow> world \<Rightarrow> (exn + string) \<times> world" where
  "runOnce e md json max_tokens msgs w =
     (let w' = w\<lparr>calls := calls w @ [text_call md msgs max_tokens]\<rparr> in
      case ai_run e (length (calls w)) md msgs max_tokens of
        Inl x \<Rightarrow> (Inl x, w')
      | Inr res \<Rightarrow> (response_text json res, w'))"

text \<open>
  The loop \<^verbatim>\<open>while (!full.includes(END) && rounds < 4)\<close>, from the values of
  \<^verbatim>\<open>full\<close> and \<^verbatim>\<open>rounds\<close> at its head. An exception of \<^verbatim>\<open>runOnce\<close> leaves the
  loop.
\<close>

function continue_loop ::
  "env \<Rightarrow> string \<Rightarrow> bool \<Rightarrow> string \<Rightarrow> message list \<Rightarrow> message \<Rightarrow> string \<Rightarrow> nat \<Rightarrow> world
   \<Rightarrow> (exn + string) \<times> world" where
  "continue_loop e md json prompt history userMsg full rounds w =
     (if \<not> includesStr full END \<and> rounds < 4 then
        (case runOnce e md json 3072 (contMsgs history userMsg full prompt) w of
           (Inl x, w') \<Rightarrow> (Inl x, w')
         | (Inr more_text, w') \<Rightarrow>
             continue_loop e md json prompt history userMsg
               (full @ (if endsWith full ''\<newline>'' then [] else ''\<newline>'') @ more_text)
               (rounds + 1) w')
      else (Inr full, w))"
  by pat_completeness auto
termination
  by (relation "measure (\<lambda>(e, md, json, prompt, history, userMsg, full, rounds, w). 4 - rounds)")
    auto

text \<open>The continuation protocol: the first call, then the loop; it gives the assembled text.\<close>

definition assemble ::
  "env \<Rightarrow> string \<Rightarrow> bool \<Rightarrow> string \<Rightarrow> message list \<Rightarrow> message list \<Rightarrow> message \<Rightarrow> world
   \<Rightarrow> (exn + string) \<times> world" where
  "assemble e md json prompt messages history userMsg w =
     (case runOnce e md json 3072 messages w of
        (Inl x, w1) \<Rightarrow> (Inl x, w1)
      | (Inr full, w1) \<Rightarrow> continue_loop e md json prompt history userMsg full 0 w1)"

definition persist :: "env \<Rightarrow> message \<Rightarrow> string \<Rightarrow> world \<Rightarrow> (exn + unit) \<times> world" where
  "persist e userMsg text w =
     (case stub_append e (role userMsg) (content userMsg) w of
        (Inl x, w1) \<Rightarrow> (Inl x, w1)
      | (Inr u, w1) \<Rightarrow> stub_append e ''assistant'' text w1)"

text \<open>
  The body of one \<^verbatim>\<open>try\<close> block of the endpoint: the protocol, the cleaning of the
  text, the two appends. \<open>Inl\<close> is the exception that reaches the \<^verbatim>\<open>catch\<close>.
\<close>

definition attempt ::
  "env \<Rightarrow> string \<Rightarrow> bool \<Rightarrow> string \<Rightarrow> message list \<Rightarrow> message list \<Rightarrow> message \<Rightarrow> world
   \<Rightarrow> (exn + string) \<times> world" where
  "attempt e md json prompt messages history userMsg w =
     (case assemble e md json prompt messages history userMsg w of
        (Inl x, w1) \<Rightarrow> (Inl x, w1)
      | (Inr full, w1) \<Rightarrow>
          (let clean = trim (replaceAll full END []) in
           case persist e userMsg clean w1 of
             (Inl x, w2) \<Rightarrow> (Inl x, w2)
           | (Inr u, w2) \<Rightarrow> (Inr clean, w2)))"

definition new_user_message :: "body \<Rightarrow> message" where
  "new_user_message b =
     \<lparr>role = ''user'',
      content = userPromptFromInputs (strings_of (ingredients_of b)) (extras_field (body_fields b)),
      ts = None\<rparr>"

text \<open>\<^verbatim>\<open>POST /api/recipe\<close>.\<close>

text \<open>
  The part of the handler after the history is read: the new user message, the first
  attempt and, in its \<^verbatim>\<open>catch\<close>, the attempt on the fallback model.
\<close>

definition answer_recipe ::
  "env \<Rightarrow> string \<Rightarrow> body \<Rightarrow> message list \<Rightarrow> world \<Rightarrow> response \<times> world" where
  "answer_recipe e md b history w0 =
     (case prompt_error (ingredients_of b) of
        Some x \<Rightarrow> (Uncaught x, w0)
      | None \<Rightarrow>
          (let userMsg = new_user_message b;
               messages = build_messages history userMsg in
           case attempt e md True primary_prompt messages history userMsg w0 of
             (Inr clean, w1) \<Rightarrow> (RecipeResponse md clean None, w1)
           | (Inl err, w1) \<Rightarrow>
               if md \<noteq> fallback then
                 (case attempt e fallback False fallback_prompt messages history userMsg w1 of
                    (Inr clean, w2) \<Rightarrow>
                      (RecipeResponse fallback clean (Some ''Auto-fallback used.''), w2)
                  | (Inl x, w2) \<Rightarrow>
                      (ErrorResponse 500 ''AI request failed'' (Some err), w2))
               else (ErrorResponse 500 ''AI request failed'' (Some err), w1)))"

definition generate :: "env \<Rightarrow> body \<Rightarrow> world \<Rightarrow> response \<times> world" where
  "generate e b w =
     (if b = JsonNull then (Uncaught null_body_error, w)
      else
        (case resolve_field (model_field (body_fields b)) of
           Inl x \<Rightarrow> (Uncaught x, w)
         | Inr md \<Rightarrow>
             if ingredients_of b = [] then
               (ErrorResponse 400 ''Provide at least one ingredient.'' None, w)
             else
               (case stub_history e w of
                  (Inl x, w0) \<Rightarrow> (Uncaught x, w0)
                | (Inr history, w0) \<Rightarrow> answer_recipe e md b history w0)))"

section \<open>The streaming endpoint\<close>

definition stream_call :: "string \<Rightarrow> message list \<Rightarrow> call" where
  "stream_call md msgs =
     \<lparr>call_model = md, call_messages = msgs, call_stream = True, call_max_tokens = 1536\<rparr>"

definition run_stream :: "env \<Rightarrow> string \<Rightarrow> message list \<Rightarrow> world \<Rightarrow> (exn + ai_stream) \<times> world" where
  "run_stream e md msgs w =
     (let w' = w\<lparr>calls := calls w @ [stream_call md msgs]\<rparr> in
      (ai_run_stream e (length (calls w)) md msgs 1536, w'))"

text \<open>
  The task given to \<^verbatim>\<open>ctx.waitUntil\<close>: it reads the second branch of the stream to
  its end and then appends both turns inside \<^verbatim>\<open>try { ... } catch (_) {}\<close>. When the
  stream ends in an error, \<^verbatim>\<open>reader.read()\<close> rejects and the task stops before the
  appends.
\<close>

definition drain_and_save :: "env \<Rightarrow> message \<Rightarrow> ai_stream \<Rightarrow> world \<Rightarrow> world" where
  "drain_and_save e userMsg s w =
     (case stream_error s of
        Some x \<Rightarrow> w
      | None \<Rightarrow> snd (persist e userMsg (concat (chunks s)) w))"

text \<open>\<^verbatim>\<open>POST /api/recipe/stream\<close>.\<close>

definition answer_stream ::
  "env \<Rightarrow> string \<Rightarrow> body \<Rightarrow> message list \<Rightarrow> world \<Rightarrow> response \<times> world" where
  "answer_stream e md b history w0 =
     (case prompt_error (ingredients_of b) of
        Some x \<Rightarrow> (Uncaught x, w0)
      | None \<Rightarrow>
          (let userMsg = new_user_message b;
               messages = build_messages history userMsg in
           case run_stream e md messages w0 of
             (Inr s, w1) \<Rightarrow> (StreamResponse s, drain_and_save e userMsg s w1)
           | (Inl err, w1) \<Rightarrow>
               (case runOnce e md False 1536 messages w1 of
                  (Inl x, w2) \<Rightarrow> (ErrorResponse 500 ''AI streaming failed'' (Some err), w2)
                | (Inr text, w2) \<Rightarrow>
                    (case persist e userMsg text w2 of
                       (Inl x, w3) \<Rightarrow>
                         (ErrorResponse 500 ''AI streaming failed'' (Some err), w3)
                     | (Inr u, w3) \<Rightarrow>
                         (RecipeResponse md text (Some ''Stream fallback used.''), w3)))))"

definition generateStreaming :: "env \<Rightarrow> body \<Rightarrow> world \<Rightarrow> response \<times> world" where
  "generateStreaming e b w =
     (if b = JsonNull then (Uncaught null_body_error, w)
      else
        (case resolve_field (model_field (body_fields b)) of
           Inl x \<Rightarrow> (Uncaught x, w)
         | Inr md \<Rightarrow>
             if ingredients_of b = [] then
               (ErrorResponse 400 ''Provide at least one ingredient.'' None, w)
             else
               (case stub_history e w of
                  (Inl x, w0) \<Rightarrow> (Uncaught x, w0)
                | (Inr history, w0) \<Rightarrow> answer_stream e md b history w0)))"

text \<open>\<^verbatim>\<open>POST /api/reset\<close>.\<close>

definition reset :: "env \<Rightarrow> world \<Rightarrow> response \<times> world" where
  "reset e w =
     (case stub_reset e w of
        (Inl x, w') \<Rightarrow> (Uncaught x, w')
      | (Inr u, w') \<Rightarrow> (OkResponse, w'))"

section \<open>Vocabulary of the properties\<close>

text \<open>
  A continuation call of the protocol: a non-streaming call to the model \<open>md\<close> whose
  sequence is the one the loop builds around an accumulated text that does not hold the
  sentinel.
\<close>

definition cont_call :: "string \<Rightarrow> message list \<Rightarrow> message \<Rightarrow> string \<Rightarrow> call \<Rightarrow> bool" where
  "cont_call md history userMsg prompt c \<longleftrightarrow>
     (\<exists>acc. \<not> includesStr acc END
        \<and> c = text_call md (contMsgs history userMsg acc prompt) 3072)"

text \<open>Concrete requests, states and collaborators, for the evaluations below.\<close>

definition empty_world :: world where
  "empty_world = \<lparr>storage = None, calls = [], store_log = []\<rparr>"

definition eggs_body :: body where
  "eggs_body = Parsed \<lparr>ingredients_field = IngArray [Str ''eggs''], extras_field = None,
                       model_field = ModelAbsent\<rparr>"

definition blank_body :: body where
  "blank_body = Parsed \<lparr>ingredients_field = IngArray [Str [], Str ''  ''], extras_field = None,
                        model_field = ModelAbsent\<rparr>"

definition no_stream :: "nat \<Rightarrow> string \<Rightarrow> message list \<Rightarrow> nat \<Rightarrow> exn + ai_stream" where
  "no_stream n md msgs max_tokens = Inl ''stream down''"

definition store_up :: "nat \<Rightarrow> exn option" where
  "store_up n = None"

definition tick :: "nat \<Rightarrow> nat" where
  "tick n = n"

text \<open>A client whose every answer is the text \<open>t\<close>.\<close>

definition answers :: "string \<Rightarrow> nat \<Rightarrow> string \<Rightarrow> message list \<Rightarrow> nat \<Rightarrow> exn + ai_result" where
  "answers t n md msgs max_tokens = Inr (AiString t)"

definition env_never_ends :: env where
  "env_never_ends = \<lparr>ai_run = answers ''x'', ai_run_stream = no_stream,
                      stub_rejects = store_up, clock = tick\<rparr>"

text \<open>A client that ends its second answer with the sentinel.\<close>

definition ends_second :: "nat \<Rightarrow> string \<Rightarrow> message list \<Rightarrow> nat \<Rightarrow> exn + ai_result" where
  "ends_second n md msgs max_tokens =
     Inr (AiString (if n = 0 then ''Soup'' else ''Serve. '' @ END))"

definition env_ends_second :: env where
  "env_ends_second = \<lparr>ai_run = ends_second, ai_run_stream = no_stream,
                       stub_rejects = store_up, clock = tick\<rparr>"

text \<open>A client that fails for every model but the fallback model.\<close>

definition only_fallback :: "nat \<Rightarrow> string \<Rightarrow> message list \<Rightarrow> nat \<Rightarrow> exn + ai_result" where
  "only_fallback n md msgs max_tokens =
     (if md = fallback then Inr (AiString (''Soup '' @ END)) else Inl ''primary down'')"

definition env_only_fallback :: env where
  "env_only_fallback = \<lparr>ai_run = only_fallback, ai_run_stream = no_stream,
                         stub_rejects = store_up, clock = tick\<rparr>"

text \<open>A store that answers the first request, the history read, and rejects every later one.\<close>

definition appends_rejected :: "nat \<Rightarrow> exn option" where
  "appends_rejected n = (if n = 0 then None else Some ''store down'')"

definition env_store_down :: env where
  "env_store_down = \<lparr>ai_run = answers (''Soup '' @ END), ai_run_stream = no_stream,
                      stub_rejects = appends_rejected, clock = tick\<rparr>"

text \<open>A client whose answer holds one sentinel inside another.\<close>

definition env_nested :: env where
  "env_nested = \<lparr>ai_run = answers (''<<<END_OF_'' @ END @ ''RECIPE>>>''),
                  ai_run_stream = no_stream, stub_rejects = store_up, clock = tick\<rparr>"

text \<open>A client that fails every call, and requests that name a model.\<close>

definition no_answer :: "nat \<Rightarrow> string \<Rightarrow> message list \<Rightarrow> nat \<Rightarrow> exn + ai_result" where
  "no_answer n md msgs max_tokens = Inl ''model down''"

definition env_all_down :: env where
  "env_all_down = \<lparr>ai_run = no_answer, ai_run_stream = no_stream,
                    stub_rejects = store_up, clock = tick\<rparr>"


definition no_ingredients_body :: body where
  "no_ingredients_body = Parsed \<lparr>ingredients_field = IngArray [], extras_field = Some ''vegan'',
                                 model_field = ModelString ''gpt-5''\<rparr>"

definition text_ingredients_body :: body where
  "text_ingredients_body = Parsed \<lparr>ingredients_field = IngNotArray, extras_field = None,
                                   model_field = ModelAbsent\<rparr>"

text \<open>A client that ends its first answer with the sentinel; the store is up.\<close>

definition env_ends_first :: env where
  "env_ends_first = \<lparr>ai_run = answers (''Soup '' @ END), ai_run_stream = no_stream,
                      stub_rejects = store_up, clock = tick\<rparr>"

text \<open>Bodies with a model that is a number, and with an ingredient that is a number.\<close>

definition numeric_model_body :: body where
  "numeric_model_body = Parsed \<lparr>ingredients_field = IngArray [], extras_field = None,
                                model_field = ModelOther\<rparr>"

definition numeric_ingredient_body :: body where
  "numeric_ingredient_body =
     Parsed \<lparr>ingredients_field = IngArray [NonString ''s.trim is not a function''],
             extras_field = None, model_field = ModelAbsent\<rparr>"

text \<open>A store that rejects every request, the history read too.\<close>

definition all_rejected :: "nat \<Rightarrow> exn option" where
  "all_rejected n = Some ''store down''"

definition env_store_unreachable :: env where
  "env_store_unreachable = \<lparr>ai_run = answers (''Soup '' @ END), ai_run_stream = no_stream,
                             stub_rejects = all_rejected, clock = tick\<rparr>"

text \<open>A client whose stream call resolves to a stream that breaks before its first chunk.\<close>

definition dead_stream :: "nat \<Rightarrow> string \<Rightarrow> message list \<Rightarrow> nat \<Rightarrow> exn + ai_stream" where
  "dead_stream n md msgs max_tokens = Inr \<lparr>chunks = [], stream_error = Some ''stream broke''\<rparr>"

definition env_dead_stream :: env where
  "env_dead_stream = \<lparr>ai_run = answers (''Soup '' @ END), ai_run_stream = dead_stream,
                       stub_rejects = store_up, clock = tick\<rparr>"





section \<open>Facts about the text operations\<close>

lemma starts_with_prefix: "starts_with s p \<longleftrightarrow> prefix p s"
  by (induction s p rule: starts_with.induct) auto

lemma includesStr_sublist: "includesStr s p \<longleftrightarrow> sublist p s"
  by (induction s) (auto simp: starts_with_prefix sublist_Cons_right)

lemma trim_sublist: "sublist (trim s) s"
proof -
  have "suffix (dropWhile is_space s) s"
    by (rule suffix_dropWhile)
  moreover have "prefix (trim s) (dropWhile is_space s)"
    unfolding trim_def
    by (metis rev_rev_ident suffix_dropWhile suffix_to_prefix)
  ultimately show ?thesis
    by (meson prefix_imp_sublist suffix_imp_sublist sublist_order.order_trans)
qed

lemma trim_keeps_absent: "\<not> includesStr s p \<Longrightarrow> \<not> includesStr (trim s) p"
  using trim_sublist [of s] by (auto simp: includesStr_sublist dest: sublist_order.order_trans)

lemma length_END: "length END = 19"
  by (simp add: END_def)

lemma END_border_free: "\<forall>k\<in>{1..<19}. drop k END \<noteq> take (19 - k) END"
  by code_simp

lemma END_overlap:
  assumes "prefix END (t @ END @ rest)" and "t \<noteq> []"
  shows "prefix END t"
proof (rule ccontr)
  assume np: "\<not> prefix END t"
  with assms(1) obtain us where us: "END = t @ us" "prefix us (END @ rest)"
    by (auto simp: prefix_append)
  let ?k = "length t"
  from us(1) np have "us \<noteq> []" by auto
  with us(1) assms(2) have k: "1 \<le> ?k" "?k < 19"
    using length_END by (auto simp: Suc_le_eq) (metis length_append length_greater_0_conv less_add_same_cancel1)
  from us(1) have d: "drop ?k END = us" by (metis append_eq_conv_conj)
  from us(1) length_END have lu: "length us = 19 - ?k" by (metis add_diff_cancel_left' length_append)
  from us(2) have "us = take (length us) (END @ rest)"
    by (metis append_eq_conv_conj prefix_def)
  with lu length_END have "us = take (19 - ?k) END" by simp
  with d k END_border_free show False by auto
qed

lemma replaceAll_pattern_first:
  "pat \<noteq> [] \<Longrightarrow> replaceAll (pat @ rest) pat rep = rep @ replaceAll rest pat rep"
  by (cases pat) (simp_all add: starts_with_prefix)

lemma replaceAll_absent: "pat \<noteq> [] \<Longrightarrow> \<not> includesStr s pat \<Longrightarrow> replaceAll s pat rep = s"
  by (induction s) auto

lemma replaceAll_before_END:
  "\<not> includesStr t END \<Longrightarrow> replaceAll (t @ END @ rest) END [] = t @ replaceAll rest END []"
proof (induction t)
  case Nil
  have "END \<noteq> []" using length_END by auto
  then show ?case using replaceAll_pattern_first [of END rest "[]"] by simp
next
  case (Cons c t)
  have ne: "END \<noteq> []" using length_END by auto
  from Cons.prems have a: "\<not> prefix END (c # t)" and b: "\<not> includesStr t END"
    by (auto simp: starts_with_prefix)
  from a END_overlap [of "c # t" rest] have "\<not> starts_with (c # t @ END @ rest) END"
    by (auto simp: starts_with_prefix)
  with ne Cons.IH [OF b] show ?case by simp
qed

lemma replaceAll_join_aux:
  "sep = END \<Longrightarrow> segs \<noteq> [] \<Longrightarrow> \<forall>t\<in>set segs. \<not> includesStr t END \<Longrightarrow>
   replaceAll (join segs sep) END [] = concat segs"
proof (induction segs sep rule: join.induct)
  case (1 sep)
  then show ?case by simp
next
  case (2 x sep)
  have "END \<noteq> []" using length_END by auto
  with 2 show ?case by (simp add: replaceAll_absent)
next
  case (3 x y ys sep)
  then show ?case by (simp add: replaceAll_before_END)
qed

lemma replaceAll_join:
  "segs \<noteq> [] \<Longrightarrow> \<forall>t\<in>set segs. \<not> includesStr t END \<Longrightarrow>
   replaceAll (join segs END) END [] = concat segs"
  by (rule replaceAll_join_aux) simp_all

section \<open>Facts about the state a request leaves\<close>

lemma runOnce_world:
  "snd (runOnce e md json mt msgs w) = w\<lparr>calls := calls w @ [text_call md msgs mt]\<rparr>"
  by (simp add: runOnce_def Let_def split: sum.splits)

lemma stub_history_world:
  "snd (stub_history e w) = w\<lparr>store_log := store_log w @ [GetHistory]\<rparr>"
  by (simp add: stub_history_def Let_def split: option.splits do_response.splits)

lemma stub_append_calls: "calls (snd (stub_append e r c w)) = calls w"
  by (simp add: stub_append_def Let_def split: option.splits)

lemma persist_calls: "calls (snd (persist e u t w)) = calls w"
proof (cases "stub_append e (role u) (content u) w")
  case (Pair r1 w1)
  with stub_append_calls [of e "role u" "content u" w] have "calls w1 = calls w" by simp
  with Pair stub_append_calls [of e "''assistant''" t w1] show ?thesis
    by (cases r1) (simp_all add: persist_def)
qed

lemma continue_loop_calls:
  "continue_loop e md json prompt history userMsg full rounds w = (r, w') \<Longrightarrow>
   \<exists>cs. w' = w\<lparr>calls := calls w @ cs\<rparr> \<and> length cs \<le> 4 - rounds
      \<and> (\<forall>c\<in>set cs. cont_call md history userMsg prompt c)
      \<and> (\<forall>t. r = Inr t \<longrightarrow> includesStr t END \<or> length cs = 4 - rounds)"
proof (induction e md json prompt history userMsg full rounds w arbitrary: r w' rule: continue_loop.induct)
  case (1 e md json prompt history userMsg full rounds w)
  show ?case
  proof (cases "\<not> includesStr full END \<and> rounds < 4")
    case False
    with "1.prems" have "r = Inr full" "w' = w"
      by (auto simp: continue_loop.simps [of e md json prompt history userMsg full rounds w])
    with False show ?thesis
      by (intro exI [of _ "[]"]) auto
  next
    case True
    obtain r1 w1 where ro: "runOnce e md json 3072 (contMsgs history userMsg full prompt) w = (r1, w1)"
      by (cases "runOnce e md json 3072 (contMsgs history userMsg full prompt) w")
    let ?c = "text_call md (contMsgs history userMsg full prompt) 3072"
    from ro have w1: "w1 = w\<lparr>calls := calls w @ [?c]\<rparr>"
      using runOnce_world [of e md json 3072 "contMsgs history userMsg full prompt" w] by simp
    have cc: "cont_call md history userMsg prompt ?c"
      using True by (auto simp: cont_call_def)
    show ?thesis
    proof (cases r1)
      case (Inl x)
      with "1.prems" True ro have "r = Inl x" "w' = w1"
        by (auto simp: continue_loop.simps [of e md json prompt history userMsg full rounds w])
      with w1 cc True show ?thesis
        by (intro exI [of _ "[?c]"]) auto
    next
      case (Inr more_text)
      let ?full = "full @ (if endsWith full ''\<newline>'' then [] else ''\<newline>'') @ more_text"
      from "1.prems" True ro Inr
      have rec: "continue_loop e md json prompt history userMsg ?full (rounds + 1) w1 = (r, w')"
        by (auto simp: continue_loop.simps [of e md json prompt history userMsg full rounds w])
      from "1.IH" [OF True ro [symmetric] _ rec] Inr
      obtain cs where cs: "w' = w1\<lparr>calls := calls w1 @ cs\<rparr>" "length cs \<le> 4 - (rounds + 1)"
        "\<forall>c\<in>set cs. cont_call md history userMsg prompt c"
        "\<forall>t. r = Inr t \<longrightarrow> includesStr t END \<or> length cs = 4 - (rounds + 1)"
        by auto
      with w1 cc True show ?thesis
        by (intro exI [of _ "?c # cs"]) auto
    qed
  qed
qed

lemma assemble_calls:
  assumes "assemble e md json prompt messages history userMsg w = (r, w')"
  shows "\<exists>cs. w' = w\<lparr>calls := calls w @ text_call md messages 3072 # cs\<rparr> \<and> length cs \<le> 4
      \<and> (\<forall>c\<in>set cs. cont_call md history userMsg prompt c)
      \<and> (\<forall>t. r = Inr t \<longrightarrow> includesStr t END \<or> length cs = 4)"
proof -
  obtain r1 w1 where ro: "runOnce e md json 3072 messages w = (r1, w1)"
    by (cases "runOnce e md json 3072 messages w")
  then have w1: "w1 = w\<lparr>calls := calls w @ [text_call md messages 3072]\<rparr>"
    using runOnce_world [of e md json 3072 messages w] by simp
  show ?thesis
  proof (cases r1)
    case (Inl x)
    with assms ro have "r = Inl x" "w' = w1" by (auto simp: assemble_def)
    with w1 show ?thesis by (intro exI [of _ "[]"]) auto
  next
    case (Inr full)
    with assms ro have "continue_loop e md json prompt history userMsg full 0 w1 = (r, w')"
      by (auto simp: assemble_def)
    from continue_loop_calls [OF this] obtain cs where
      "w' = w1\<lparr>calls := calls w1 @ cs\<rparr>" "length cs \<le> 4"
      "\<forall>c\<in>set cs. cont_call md history userMsg prompt c"
      "\<forall>t. r = Inr t \<longrightarrow> includesStr t END \<or> length cs = 4"
      by auto
    with w1 show ?thesis by (intro exI [of _ cs]) auto
  qed
qed

lemma attempt_calls:
  assumes "attempt e md json prompt messages history userMsg w = (r, w')"
  shows "\<exists>cs. calls w' = calls w @ text_call md messages 3072 # cs \<and> length cs \<le> 4
      \<and> (\<forall>c\<in>set cs. cont_call md history userMsg prompt c)"
proof -
  obtain r1 w1 where a: "assemble e md json prompt messages history userMsg w = (r1, w1)"
    by (cases "assemble e md json prompt messages history userMsg w")
  from assemble_calls [OF a] obtain cs where cs:
    "w1 = w\<lparr>calls := calls w @ text_call md messages 3072 # cs\<rparr>" "length cs \<le> 4"
    "\<forall>c\<in>set cs. cont_call md history userMsg prompt c"
    by auto
  have "calls w' = calls w1"
  proof (cases r1)
    case (Inl x)
    with assms a show ?thesis by (simp add: attempt_def)
  next
    case (Inr full)
    with assms a persist_calls [of e userMsg "trim (replaceAll full END [])" w1]
    show ?thesis
      by (auto simp: attempt_def Let_def split: prod.splits sum.splits)
  qed
  with cs show ?thesis by (intro exI [of _ cs]) auto
qed

lemma attempt_text:
  assumes "attempt e md json prompt messages history userMsg w = (Inr text, w')"
  shows "\<exists>full w1. assemble e md json prompt messages history userMsg w = (Inr full, w1)
           \<and> text = trim (replaceAll full END [])"
  using assms
  by (auto simp: attempt_def Let_def split: prod.splits sum.splits)

section \<open>Model-identifier resolution\<close>

text \<open>
  C4, as stated, at the unrecognized identifier \<^verbatim>\<open>mistral-7b\<close>: it is not one of the
  three aliases, so it is returned unchanged and not mapped to the default.
\<close>

theorem resolveModel_unrecognized_kept:
  "resolveModel (Some ''mistral-7b'') = ''mistral-7b'' \<and> resolveModel (Some ''mistral-7b'') \<noteq> DEFAULT"
  by (simp add: resolveModel_def toLowerCase_def lower_char_def DEFAULT_def Let_def)

text \<open>
  C4, amended: the absent and the empty identifier and every identifier that is
  \<^verbatim>\<open>gpt-5\<close>, \<^verbatim>\<open>gpt5\<close> or \<^verbatim>\<open>gpt-4.1\<close> up to letter case resolve to the fixed default;
  every other identifier, supported or not, is returned unchanged, among them
  \<^verbatim>\<open>@cf/meta/llama-3.1-8b-instruct-fast\<close>. The function reads nothing but its argument.
\<close>

theorem resolveModel_aliases_only:
  "resolveModel None = DEFAULT
   \<and> resolveModel (Some []) = DEFAULT
   \<and> resolveModel (Some ''gpt-5'') = DEFAULT
   \<and> resolveModel (Some ''@cf/meta/llama-3.1-8b-instruct-fast'') = ''@cf/meta/llama-3.1-8b-instruct-fast''
   \<and> (\<forall>md. toLowerCase md \<in> {''gpt-5'', ''gpt5'', ''gpt-4.1''} \<longrightarrow> resolveModel (Some md) = DEFAULT)
   \<and> (\<forall>md. md \<noteq> [] \<and> toLowerCase md \<notin> {''gpt-5'', ''gpt5'', ''gpt-4.1''} \<longrightarrow> resolveModel (Some md) = md)"
  by (simp add: resolveModel_def toLowerCase_def lower_char_def Let_def)

theorem resolveModel_aliases_only_witness:
  "toLowerCase ''GPT5'' \<in> {''gpt-5'', ''gpt5'', ''gpt-4.1''} \<and> resolveModel (Some ''GPT5'') = DEFAULT
   \<and> ''llama-x'' \<noteq> [] \<and> toLowerCase ''llama-x'' \<notin> {''gpt-5'', ''gpt5'', ''gpt-4.1''}
   \<and> resolveModel (Some ''llama-x'') = ''llama-x''"
proof -
  have up: "toLowerCase ''GPT5'' = ''gpt5''" by code_simp
  have same: "toLowerCase ''llama-x'' = ''llama-x''" by code_simp
  from resolveModel_aliases_only have
    "\<forall>md. toLowerCase md \<in> {''gpt-5'', ''gpt5'', ''gpt-4.1''} \<longrightarrow> resolveModel (Some md) = DEFAULT"
    "\<forall>md. md \<noteq> [] \<and> toLowerCase md \<notin> {''gpt-5'', ''gpt5'', ''gpt-4.1''} \<longrightarrow> resolveModel (Some md) = md"
    by blast+
  from this(1) [rule_format, of "''GPT5''"] this(2) [rule_format, of "''llama-x''"] up same
  show ?thesis by simp
qed

section \<open>The continuation protocol\<close>

text \<open>
  C1, as stated, at a client that never sends the sentinel: the protocol issues a fifth
  call.
\<close>

theorem never_ending_client_five_calls:
  "\<not> length (calls (snd (assemble env_never_ends DEFAULT True primary_prompt
         (build_messages [] (new_user_message eggs_body)) [] (new_user_message eggs_body)
         empty_world))) \<le> 4"
  by code_simp

text \<open>
  C1, amended: one run of the continuation protocol issues the first call and at most
  4 continuation calls, 5 calls in all, whatever the client answers. Every
  continuation call is issued for an accumulated text without the sentinel, so the
  protocol stops as soon as the sentinel is there; a run that returns a text without
  the sentinel has used all 4 continuation calls.
\<close>

theorem assemble_at_most_five_calls:
  assumes "assemble e md json prompt messages history userMsg w = (r, w')"
  shows "length (calls w') \<le> length (calls w) + 5
     \<and> (\<exists>cs. calls w' = calls w @ text_call md messages 3072 # cs \<and> length cs \<le> 4
           \<and> (\<forall>c\<in>set cs. cont_call md history userMsg prompt c)
           \<and> (\<forall>t. r = Inr t \<longrightarrow> includesStr t END \<or> length cs = 4))"
proof -
  from assemble_calls [OF assms] obtain cs where cs:
    "w' = w\<lparr>calls := calls w @ text_call md messages 3072 # cs\<rparr>" "length cs \<le> 4"
    "\<forall>c\<in>set cs. cont_call md history userMsg prompt c"
    "\<forall>t. r = Inr t \<longrightarrow> includesStr t END \<or> length cs = 4"
    by blast
  from cs(1,2) have "length (calls w') \<le> length (calls w) + 5" by simp
  moreover from cs have "\<exists>cs. calls w' = calls w @ text_call md messages 3072 # cs \<and> length cs \<le> 4
           \<and> (\<forall>c\<in>set cs. cont_call md history userMsg prompt c)
           \<and> (\<forall>t. r = Inr t \<longrightarrow> includesStr t END \<or> length cs = 4)"
    by (intro exI [of _ cs]) simp
  ultimately show ?thesis by blast
qed

theorem assemble_at_most_five_calls_witness:
  "fst (assemble env_ends_second DEFAULT True primary_prompt
          (build_messages [] (new_user_message eggs_body)) [] (new_user_message eggs_body)
          empty_world) = Inr (''Soup\<newline>Serve. '' @ END)
   \<and> length (calls (snd (assemble env_ends_second DEFAULT True primary_prompt
          (build_messages [] (new_user_message eggs_body)) [] (new_user_message eggs_body)
          empty_world))) = 2
   \<and> length (calls (snd (assemble env_ends_second DEFAULT True primary_prompt
          (build_messages [] (new_user_message eggs_body)) [] (new_user_message eggs_body)
          empty_world))) \<le> length (calls empty_world) + 5"
proof -
  let ?run = "assemble env_ends_second DEFAULT True primary_prompt
          (build_messages [] (new_user_message eggs_body)) [] (new_user_message eggs_body)
          empty_world"
  have run: "?run = (fst ?run, snd ?run)" by simp
  have val: "fst ?run = Inr (''Soup\<newline>Serve. '' @ END)" by code_simp
  have two: "length (calls (snd ?run)) = 2" by code_simp
  from assemble_at_most_five_calls [OF run] val two show ?thesis by simp
qed

section \<open>The bounded history\<close>

lemma slice_last_length: "length (slice_last n xs) = min n (length xs)"
  by (auto simp: slice_last_def)

lemma slice_last_suffix: "suffix (slice_last n xs) xs"
  by (simp add: slice_last_def suffix_drop)

text \<open>
  C7: an append that the store accepts (role and content are not empty) leaves a history
  of at most 20 entries: the stored history with the new entry at its end, cut to its
  last 20 entries, so the oldest entries are the ones dropped. An append that the store
  refuses leaves the storage as it was.
\<close>

theorem do_append_keeps_last_20:
  "(r \<noteq> [] \<and> c \<noteq> [] \<longrightarrow>
      (\<exists>h. do_append st r c now = (Appended (length h), Some h)
         \<and> length h \<le> 20
         \<and> length h = min 20 (length (case st of None \<Rightarrow> [] | Some old \<Rightarrow> old) + 1)
         \<and> suffix h ((case st of None \<Rightarrow> [] | Some old \<Rightarrow> old)
                      @ [\<lparr>role = r, content = c, ts = Some now\<rparr>])
         \<and> last h = \<lparr>role = r, content = c, ts = Some now\<rparr>))
   \<and> (r = [] \<or> c = [] \<longrightarrow> do_append st r c now = (BadRequest, st))"
proof -
  let ?old = "case st of None \<Rightarrow> [] | Some old \<Rightarrow> old"
  let ?new = "\<lparr>role = r, content = c, ts = Some now\<rparr>"
  let ?h = "slice_last 20 (?old @ [?new])"
  have "length ?h = min 20 (length ?old + 1)"
    by (simp add: slice_last_length)
  moreover have "suffix ?h (?old @ [?new])"
    by (rule slice_last_suffix)
  moreover have "last ?h = ?new"
    by (simp add: slice_last_def)
  ultimately show ?thesis
    by (auto simp: do_append_def Let_def)
qed

theorem do_append_keeps_last_20_witness:
  "''user'' \<noteq> [] \<and> ''eggs'' \<noteq> []
   \<and> do_append None ''assistant'' [] 5 = (BadRequest, None)
   \<and> snd (do_append (Some (map (\<lambda>n. \<lparr>role = ''user'', content = ''old'', ts = Some n\<rparr>) [0..<20]))
        ''user'' ''eggs'' 99)
     = Some (map (\<lambda>n. \<lparr>role = ''user'', content = ''old'', ts = Some n\<rparr>) [1..<20]
             @ [\<lparr>role = ''user'', content = ''eggs'', ts = Some 99\<rparr>])
   \<and> (\<exists>h. do_append (Some (map (\<lambda>n. \<lparr>role = ''user'', content = ''old'', ts = Some n\<rparr>) [0..<20]))
        ''user'' ''eggs'' 99 = (Appended (length h), Some h) \<and> length h \<le> 20)"
proof -
  let ?st = "Some (map (\<lambda>n. \<lparr>role = ''user'', content = ''old'', ts = Some n\<rparr>) [0..<20])"
  have ev: "snd (do_append ?st ''user'' ''eggs'' 99)
     = Some (map (\<lambda>n. \<lparr>role = ''user'', content = ''old'', ts = Some n\<rparr>) [1..<20]
             @ [\<lparr>role = ''user'', content = ''eggs'', ts = Some 99\<rparr>])"
    by code_simp
  from do_append_keeps_last_20 [of "''user''" "''eggs''" ?st 99]
  have "\<exists>h. do_append ?st ''user'' ''eggs'' 99 = (Appended (length h), Some h) \<and> length h \<le> 20"
    by auto
  moreover from do_append_keeps_last_20 [of "''assistant''" "[]" None 5]
  have "do_append None ''assistant'' [] 5 = (BadRequest, None)"
    by simp
  ultimately show ?thesis using ev by simp
qed

section \<open>The message sequence of an inference call\<close>

lemma push_history_filter:
  "push_history msgs history
     = msgs @ filter (\<lambda>h. role h = ''user'' \<or> role h = ''assistant'') history"
  unfolding push_history_def
  by (induction history arbitrary: msgs) auto

text \<open>
  C9: for any stored history, the sequence of the first call is the system message,
  then the history entries whose role is user or assistant, in their order, then the new
  user message; no message after the first has the role system. The sequence of a
  continuation call is that sequence followed by the accumulated text as an assistant
  message and the continuation instruction as a user message.
\<close>

theorem message_sequence_shape:
  "build_messages history (new_user_message b)
     = system_message # filter (\<lambda>h. role h = ''user'' \<or> role h = ''assistant'') history
         @ [new_user_message b]
   \<and> role system_message = ''system''
   \<and> role (new_user_message b) = ''user''
   \<and> hd (build_messages history (new_user_message b)) = system_message
   \<and> last (build_messages history (new_user_message b)) = new_user_message b
   \<and> (\<forall>m\<in>set (tl (build_messages history (new_user_message b))).
         role m = ''user'' \<or> role m = ''assistant'')
   \<and> (\<forall>m\<in>set (build_messages history (new_user_message b)).
         role m = ''system'' \<or> role m = ''user'' \<or> role m = ''assistant'')
   \<and> contMsgs history (new_user_message b) full prompt
       = build_messages history (new_user_message b)
           @ [\<lparr>role = ''assistant'', content = full, ts = None\<rparr>,
              \<lparr>role = ''user'', content = prompt, ts = None\<rparr>]
   \<and> (\<forall>m\<in>set (tl (contMsgs history (new_user_message b) full prompt)).
         role m = ''user'' \<or> role m = ''assistant'')"
  by (auto simp: build_messages_def contMsgs_def push_history_filter system_message_def
      new_user_message_def)

theorem message_sequence_shape_witness:
  "build_messages
      [\<lparr>role = ''user'', content = ''a'', ts = Some 1\<rparr>,
       \<lparr>role = ''tool'', content = ''b'', ts = Some 2\<rparr>,
       \<lparr>role = ''system'', content = ''c'', ts = Some 3\<rparr>,
       \<lparr>role = ''assistant'', content = ''d'', ts = Some 4\<rparr>]
      (new_user_message eggs_body)
    = [system_message,
       \<lparr>role = ''user'', content = ''a'', ts = Some 1\<rparr>,
       \<lparr>role = ''assistant'', content = ''d'', ts = Some 4\<rparr>,
       new_user_message eggs_body]"
  using message_sequence_shape [of
      "[\<lparr>role = ''user'', content = ''a'', ts = Some 1\<rparr>,
        \<lparr>role = ''tool'', content = ''b'', ts = Some 2\<rparr>,
        \<lparr>role = ''system'', content = ''c'', ts = Some 3\<rparr>,
        \<lparr>role = ''assistant'', content = ''d'', ts = Some 4\<rparr>]" eggs_body]
  by simp

section \<open>The structure of the non-streaming endpoint\<close>

lemma ingredients_of_parsed: "ingredients_of b \<noteq> [] \<Longrightarrow> b \<noteq> JsonNull"
  by (auto simp: ingredients_of_def body_fields_def)

lemma generate_after_history:
  assumes "ingredients_of b \<noteq> []"
    and "resolve_field (model_field (body_fields b)) = Inr md"
    and "stub_history e w = (Inr history, w0)"
  shows "generate e b w = answer_recipe e md b history w0"
  using assms ingredients_of_parsed [OF assms(1)] by (simp add: generate_def)

lemma answer_recipe_after_first_attempt:
  assumes "prompt_error (ingredients_of b) = None"
    and "attempt e md True primary_prompt
           (build_messages history (new_user_message b)) history (new_user_message b) w0
         = (r1, w1)"
  shows "answer_recipe e md b history w0 =
     (case r1 of
        Inr clean \<Rightarrow> (RecipeResponse md clean None, w1)
      | Inl err \<Rightarrow>
          if md \<noteq> fallback then
            (case attempt e fallback False fallback_prompt
                    (build_messages history (new_user_message b)) history (new_user_message b) w1 of
               (Inr clean, w2) \<Rightarrow> (RecipeResponse fallback clean (Some ''Auto-fallback used.''), w2)
             | (Inl x, w2) \<Rightarrow> (ErrorResponse 500 ''AI request failed'' (Some err), w2))
          else (ErrorResponse 500 ''AI request failed'' (Some err), w1))"
  using assms by (simp add: answer_recipe_def Let_def split: sum.splits)

lemma answer_recipe_never_400: "fst (answer_recipe e md b history w0) \<noteq> ErrorResponse 400 msg d"
  by (auto simp: answer_recipe_def Let_def split: option.splits prod.splits sum.splits if_splits)

lemma generate_empty:
  assumes "b \<noteq> JsonNull" and "model_field (body_fields b) \<noteq> ModelOther"
    and "ingredients_of b = []"
  shows "generate e b w = (ErrorResponse 400 ''Provide at least one ingredient.'' None, w)"
  using assms by (simp add: generate_def resolve_field_def split: model_value.splits)

lemma generate_empty_state: "ingredients_of b = [] \<Longrightarrow> snd (generate e b w) = w"
  by (simp add: generate_def split: sum.splits)


section \<open>Input validation\<close>

text \<open>
  C6, as stated, at a body with the empty ingredients array and the number 5 as model:
  the model is resolved before the ingredients are counted, the call throws, and the
  answer is not the 400 error.
\<close>

theorem empty_list_numeric_model_uncaught:
  "ingredients_field (body_fields numeric_model_body) = IngArray []
   \<and> fst (generate env_never_ends numeric_model_body empty_world)
       = Uncaught ''model.toLowerCase is not a function''"
  by code_simp

text \<open>
  C6, amended: a request whose ingredients array is empty issues no inference call and no
  request to the session store and leaves the stored history as it was; when its model is
  a string or absent, it is answered with the 400 error.
\<close>

theorem empty_ingredients_rejected:
  assumes "ingredients_field (body_fields b) = IngArray []"
  shows "(model_field (body_fields b) \<noteq> ModelOther \<longrightarrow>
            generate e b w = (ErrorResponse 400 ''Provide at least one ingredient.'' None, w))
     \<and> calls (snd (generate e b w)) = calls w
     \<and> store_log (snd (generate e b w)) = store_log w
     \<and> storage (snd (generate e b w)) = storage w"
proof -
  from assms have emp: "ingredients_of b = []" by (simp add: ingredients_of_def)
  from assms have nn: "b \<noteq> JsonNull" by (auto simp: body_fields_def)
  from emp have "snd (generate e b w) = w" by (rule generate_empty_state)
  with generate_empty [OF nn _ emp] show ?thesis by simp
qed

theorem empty_ingredients_rejected_witness:
  "ingredients_field (body_fields no_ingredients_body) = IngArray []
   \<and> model_field (body_fields no_ingredients_body) \<noteq> ModelOther
   \<and> generate env_never_ends no_ingredients_body empty_world
       = (ErrorResponse 400 ''Provide at least one ingredient.'' None, empty_world)
   \<and> calls (snd (generate env_never_ends no_ingredients_body empty_world)) = []
   \<and> store_log (snd (generate env_never_ends no_ingredients_body empty_world)) = []
   \<and> calls (snd (generate env_never_ends numeric_model_body empty_world)) = []
   \<and> store_log (snd (generate env_never_ends numeric_model_body empty_world)) = []"
proof -
  have h: "ingredients_field (body_fields no_ingredients_body) = IngArray []"
    by (simp add: no_ingredients_body_def body_fields_def)
  have m: "model_field (body_fields no_ingredients_body) \<noteq> ModelOther"
    by (simp add: no_ingredients_body_def body_fields_def)
  have k: "ingredients_field (body_fields numeric_model_body) = IngArray []"
    by (simp add: numeric_model_body_def body_fields_def)
  from empty_ingredients_rejected [OF h, of env_never_ends empty_world]
    empty_ingredients_rejected [OF k, of env_never_ends empty_world] h m
  show ?thesis by (simp add: empty_world_def)
qed

text \<open>
  C10, as stated: a body with a non-empty array of strings issues no inference call when
  the read of the history is rejected; a body whose array holds a number passes the
  check, reads the history and throws while the prompt is built; the body \<^verbatim>\<open>null\<close>
  throws where the body with the empty array is answered with the 400 error.
\<close>

theorem valid_array_without_inference_call:
  "fst (generate env_store_unreachable eggs_body empty_world) = Uncaught ''store down''
   \<and> calls (snd (generate env_store_unreachable eggs_body empty_world)) = []
   \<and> fst (generate env_ends_first numeric_ingredient_body empty_world)
       = Uncaught ''s.trim is not a function''
   \<and> calls (snd (generate env_ends_first numeric_ingredient_body empty_world)) = []
   \<and> fst (generate env_ends_first JsonNull empty_world) = Uncaught null_body_error
   \<and> fst (generate env_ends_first no_ingredients_body empty_world)
       = ErrorResponse 400 ''Provide at least one ingredient.'' None"
  by code_simp

text \<open>
  C10, amended: validation looks at the shape of the ingredients field only. A body that
  is not \<^verbatim>\<open>null\<close> and whose ingredients field is absent or is not an array is answered
  as the same body with the empty array is: with the 400 error when its model is a string
  or absent, and nothing else done. A body whose ingredients field is an array with at
  least one element is never answered with a 400 error; when its elements are strings,
  whatever strings, its model is a string or absent and the read of the history
  succeeds, the first inference call is issued, to the resolved model and with the
  sequence built from the stored history.
\<close>

theorem validation_checks_shape_only:
  "(b \<noteq> JsonNull
      \<and> (ingredients_field (body_fields b) = IngAbsent
           \<or> ingredients_field (body_fields b) = IngNotArray) \<longrightarrow>
      generate e b w = generate e (Parsed ((body_fields b)\<lparr>ingredients_field := IngArray []\<rparr>)) w
      \<and> (model_field (body_fields b) \<noteq> ModelOther \<longrightarrow>
            generate e b w = (ErrorResponse 400 ''Provide at least one ingredient.'' None, w)))
   \<and> (\<forall>xs. ingredients_field (body_fields b) = IngArray xs \<and> xs \<noteq> [] \<longrightarrow>
        (\<forall>msg d. fst (generate e b w) \<noteq> ErrorResponse 400 msg d)
        \<and> (prompt_error xs = None
             \<and> model_field (body_fields b) \<noteq> ModelOther
             \<and> stub_rejects e (length (store_log w)) = None \<longrightarrow>
             (\<exists>cs. calls (snd (generate e b w))
                = calls w @ text_call (resolveModel (model_arg (model_field (body_fields b))))
                    (build_messages (case storage w of None \<Rightarrow> [] | Some h \<Rightarrow> h)
                       (new_user_message b)) 3072 # cs)))"
proof (intro conjI impI allI)
  assume a: "b \<noteq> JsonNull
      \<and> (ingredients_field (body_fields b) = IngAbsent
           \<or> ingredients_field (body_fields b) = IngNotArray)"
  let ?b' = "Parsed ((body_fields b)\<lparr>ingredients_field := IngArray []\<rparr>)"
  from a have emp: "ingredients_of b = []" by (auto simp: ingredients_of_def)
  have emp': "ingredients_of ?b' = []" by (simp add: ingredients_of_def body_fields_def)
  have mf: "model_field (body_fields ?b') = model_field (body_fields b)"
    by (simp add: body_fields_def)
  from a emp emp' mf show "generate e b w = generate e ?b' w"
    by (simp add: generate_def split: sum.splits)
  assume "model_field (body_fields b) \<noteq> ModelOther"
  with a emp show "generate e b w = (ErrorResponse 400 ''Provide at least one ingredient.'' None, w)"
    by (simp add: generate_empty)
next
  fix xs msg d
  assume "ingredients_field (body_fields b) = IngArray xs \<and> xs \<noteq> []"
  then have ne: "ingredients_of b \<noteq> []" by (simp add: ingredients_of_def)
  then show "fst (generate e b w) \<noteq> ErrorResponse 400 msg d"
    using answer_recipe_never_400
    by (auto simp: generate_def split: prod.splits sum.splits)
next
  fix xs
  let ?md = "resolveModel (model_arg (model_field (body_fields b)))"
  let ?hist = "case storage w of None \<Rightarrow> [] | Some h \<Rightarrow> h"
  let ?msgs = "build_messages ?hist (new_user_message b)"
  assume x: "ingredients_field (body_fields b) = IngArray xs \<and> xs \<noteq> []"
  then have ne: "ingredients_of b \<noteq> []" and io: "ingredients_of b = xs"
    by (simp_all add: ingredients_of_def)
  assume h: "prompt_error xs = None \<and> model_field (body_fields b) \<noteq> ModelOther
             \<and> stub_rejects e (length (store_log w)) = None"
  then have rf: "resolve_field (model_field (body_fields b)) = Inr ?md"
    by (simp add: resolve_field_def split: model_value.splits)
  from h io have pe: "prompt_error (ingredients_of b) = None" by simp
  define w0 where "w0 = w\<lparr>store_log := store_log w @ [GetHistory]\<rparr>"
  from h have sh: "stub_history e w = (Inr ?hist, w0)"
    by (simp add: stub_history_def do_history_def Let_def w0_def)
  have c0: "calls w0 = calls w" by (simp add: w0_def)
  obtain r1 w1 where a1: "attempt e ?md True primary_prompt ?msgs ?hist (new_user_message b) w0 = (r1, w1)"
    by (cases "attempt e ?md True primary_prompt ?msgs ?hist (new_user_message b) w0")
  from attempt_calls [OF a1] c0 obtain cs where cs: "calls w1 = calls w @ text_call ?md ?msgs 3072 # cs"
    by auto
  obtain r2 w2 where a2: "attempt e fallback False fallback_prompt ?msgs ?hist (new_user_message b) w1 = (r2, w2)"
    by (cases "attempt e fallback False fallback_prompt ?msgs ?hist (new_user_message b) w1")
  from attempt_calls [OF a2] cs obtain cs' where cs': "calls w2 = calls w @ text_call ?md ?msgs 3072 # cs'"
    by auto
  from generate_after_history [OF ne rf sh] answer_recipe_after_first_attempt [OF pe a1] a2
  have "snd (generate e b w) = w1 \<or> snd (generate e b w) = w2"
    by (auto split: sum.splits)
  with cs cs' show "\<exists>cs. calls (snd (generate e b w)) = calls w @ text_call ?md ?msgs 3072 # cs"
    by auto
qed

theorem validation_checks_shape_only_witness:
  "text_ingredients_body \<noteq> JsonNull
   \<and> ingredients_field (body_fields text_ingredients_body) = IngNotArray
   \<and> model_field (body_fields text_ingredients_body) \<noteq> ModelOther
   \<and> generate env_ends_second text_ingredients_body empty_world
       = (ErrorResponse 400 ''Provide at least one ingredient.'' None, empty_world)
   \<and> ingredients_field (body_fields blank_body) = IngArray [Str [], Str ''  '']
   \<and> prompt_error [Str [], Str ''  ''] = None
   \<and> model_field (body_fields blank_body) \<noteq> ModelOther
   \<and> stub_rejects env_ends_second (length (store_log empty_world)) = None
   \<and> fst (generate env_ends_second blank_body empty_world) = RecipeResponse DEFAULT ''Soup\<newline>Serve.'' None
   \<and> fst (generate env_ends_second blank_body empty_world) \<noteq> ErrorResponse 400 ''Provide at least one ingredient.'' None
   \<and> calls (snd (generate env_ends_second blank_body empty_world)) \<noteq> []"
proof -
  have h1: "text_ingredients_body \<noteq> JsonNull
      \<and> ingredients_field (body_fields text_ingredients_body) = IngNotArray
      \<and> model_field (body_fields text_ingredients_body) \<noteq> ModelOther"
    by (simp add: text_ingredients_body_def body_fields_def)
  have h2: "ingredients_field (body_fields blank_body) = IngArray [Str [], Str ''  '']
      \<and> [Str [], Str ''  ''] \<noteq> []"
    by (simp add: blank_body_def body_fields_def)
  have h3: "prompt_error [Str [], Str ''  ''] = None
      \<and> model_field (body_fields blank_body) \<noteq> ModelOther
      \<and> stub_rejects env_ends_second (length (store_log empty_world)) = None"
    by (simp add: env_ends_second_def store_up_def blank_body_def body_fields_def)
  have ev: "fst (generate env_ends_second blank_body empty_world) = RecipeResponse DEFAULT ''Soup\<newline>Serve.'' None"
    by code_simp
  note t1 = validation_checks_shape_only [of text_ingredients_body env_ends_second empty_world]
  note t2 = validation_checks_shape_only [of blank_body env_ends_second empty_world]
  from t1 h1 have a: "generate env_ends_second text_ingredients_body empty_world
       = (ErrorResponse 400 ''Provide at least one ingredient.'' None, empty_world)"
    by blast
  from t2 h2 have b: "fst (generate env_ends_second blank_body empty_world)
       \<noteq> ErrorResponse 400 ''Provide at least one ingredient.'' None"
    by blast
  from t2 h2 h3 have "\<exists>c cs. calls (snd (generate env_ends_second blank_body empty_world))
      = calls empty_world @ c # cs"
    by blast
  then have c: "calls (snd (generate env_ends_second blank_body empty_world)) \<noteq> []"
    by auto
  from h1 h2 h3 ev a b c show ?thesis by simp
qed

section \<open>Fallback to the secondary model\<close>

lemma persist_world_calls:
  "persist e u t w = (r, w') \<Longrightarrow> calls w' = calls w"
  using persist_calls [of e u t w] by simp




section \<open>The streaming endpoint after a failed stream call\<close>

lemma generateStreaming_after_history:
  assumes "ingredients_of b \<noteq> []"
    and "resolve_field (model_field (body_fields b)) = Inr md"
    and "stub_history e w = (Inr history, w0)"
  shows "generateStreaming e b w = answer_stream e md b history w0"
  using assms ingredients_of_parsed [OF assms(1)] by (simp add: generateStreaming_def)

text \<open>
  C2, as stated. At a client that fails every call but those to the fallback model, the
  stream call throws, the streaming endpoint answers with the 500 error after one more
  call to the same model, and the non-streaming endpoint answers the same request with
  the recipe of the fallback model. At a client whose stream call resolves to a stream
  that breaks before its first chunk, the answer is that stream, and no other call is
  issued.
\<close>

theorem streaming_fallback_skips_secondary:
  "fst (generateStreaming env_only_fallback eggs_body empty_world)
     = ErrorResponse 500 ''AI streaming failed'' (Some ''stream down'')
   \<and> length (calls (snd (generateStreaming env_only_fallback eggs_body empty_world))) = 2
   \<and> fst (generate env_only_fallback eggs_body empty_world)
     = RecipeResponse fallback ''Soup'' (Some ''Auto-fallback used.'')
   \<and> fst (generateStreaming env_dead_stream eggs_body empty_world)
     = StreamResponse \<lparr>chunks = [], stream_error = Some ''stream broke''\<rparr>
   \<and> length (calls (snd (generateStreaming env_dead_stream eggs_body empty_world))) = 1"
  by code_simp

text \<open>
  C2, amended: when the stream call throws, the streaming endpoint issues exactly one
  more inference call, not streaming, to the same model and with the same sequence, with
  no continuation call and no call to another model, and its answer is not a stream.
  When that call fails too, the answer is the 500 error with the detail of the failed
  stream call. When that call gives a text and the text is saved, the answer is the JSON
  body with that text as it came and the note of the stream fallback.
\<close>

theorem streaming_fallback_single_call:
  assumes "ingredients_of b \<noteq> []"
    and "prompt_error (ingredients_of b) = None"
    and "resolve_field (model_field (body_fields b)) = Inr md"
    and "stub_history e w = (Inr history, w0)"
    and "messages = build_messages history (new_user_message b)"
    and "ai_run_stream e (length (calls w0)) md messages 1536 = Inl err"
  shows "\<exists>r w2.
           runOnce e md False 1536 messages (w0\<lparr>calls := calls w0 @ [stream_call md messages]\<rparr>)
             = (r, w2)
         \<and> calls (snd (generateStreaming e b w))
             = calls w0 @ [stream_call md messages, text_call md messages 1536]
         \<and> (\<forall>s. fst (generateStreaming e b w) \<noteq> StreamResponse s)
         \<and> (\<forall>x. r = Inl x \<longrightarrow>
               fst (generateStreaming e b w)
                 = ErrorResponse 500 ''AI streaming failed'' (Some err))
         \<and> (\<forall>answer. r = Inr answer
               \<and> fst (persist e (new_user_message b) answer w2) = Inr () \<longrightarrow>
               fst (generateStreaming e b w)
                 = RecipeResponse md answer (Some ''Stream fallback used.''))"
proof -
  note ms_eq = assms(5)
  note g = generateStreaming_after_history [OF assms(1,3,4)]
  let ?w1 = "w0\<lparr>calls := calls w0 @ [stream_call md messages]\<rparr>"
  have rs: "run_stream e md messages w0 = (Inl err, ?w1)"
    using assms(6) by (simp add: run_stream_def Let_def)
  obtain r w2 where ro: "runOnce e md False 1536 messages ?w1 = (r, w2)"
    by (cases "runOnce e md False 1536 messages ?w1")
  then have w2: "calls w2 = calls w0 @ [stream_call md messages, text_call md messages 1536]"
    using runOnce_world [of e md False 1536 messages ?w1] by simp
  show ?thesis
  proof (cases r)
    case (Inl x)
    with assms(2) rs ro g
    have "generateStreaming e b w = (ErrorResponse 500 ''AI streaming failed'' (Some err), w2)"
      by (simp add: answer_stream_def Let_def ms_eq [symmetric])
    with ro w2 Inl show ?thesis by simp
  next
    case (Inr answer)
    obtain p w3 where pe: "persist e (new_user_message b) answer w2 = (p, w3)"
      by (cases "persist e (new_user_message b) answer w2")
    from persist_world_calls [OF pe] w2
    have w3: "calls w3 = calls w0 @ [stream_call md messages, text_call md messages 1536]"
      by simp
    from assms(2) rs ro Inr pe g
    have "generateStreaming e b w
        = ((case p of
              Inl x \<Rightarrow> ErrorResponse 500 ''AI streaming failed'' (Some err)
            | Inr u \<Rightarrow> RecipeResponse md answer (Some ''Stream fallback used.'')), w3)"
      by (simp add: answer_stream_def Let_def ms_eq [symmetric] split: sum.splits)
    with ro w3 Inr pe show ?thesis by (auto split: sum.splits)
  qed
qed

theorem streaming_fallback_single_call_witness:
  "ingredients_of eggs_body \<noteq> []
   \<and> prompt_error (ingredients_of eggs_body) = None
   \<and> resolve_field (model_field (body_fields eggs_body)) = Inr DEFAULT
   \<and> fst (stub_history env_ends_first empty_world) = Inr []
   \<and> ai_run_stream env_ends_first
        (length (calls (snd (stub_history env_ends_first empty_world)))) DEFAULT
        (build_messages [] (new_user_message eggs_body)) 1536 = Inl ''stream down''
   \<and> fst (generateStreaming env_ends_first eggs_body empty_world)
       = RecipeResponse DEFAULT (''Soup '' @ END) (Some ''Stream fallback used.'')
   \<and> length (calls (snd (generateStreaming env_ends_first eggs_body empty_world))) = 2
   \<and> fst (generateStreaming env_all_down eggs_body empty_world)
       = ErrorResponse 500 ''AI streaming failed'' (Some ''stream down'')"
proof -
  let ?msgs = "build_messages [] (new_user_message eggs_body)"
  have h1: "ingredients_of eggs_body \<noteq> []" by code_simp
  have h2: "prompt_error (ingredients_of eggs_body) = None" by code_simp
  have h3: "resolve_field (model_field (body_fields eggs_body)) = Inr DEFAULT" by code_simp

  let ?wh = "snd (stub_history env_ends_first empty_world)"
  let ?ro = "runOnce env_ends_first DEFAULT False 1536 ?msgs
               (?wh\<lparr>calls := calls ?wh @ [stream_call DEFAULT ?msgs]\<rparr>)"
  have f4: "fst (stub_history env_ends_first empty_world) = Inr []" by code_simp
  then have h4: "stub_history env_ends_first empty_world = (Inr [], ?wh)"
    by (metis prod.collapse)
  have h6: "ai_run_stream env_ends_first (length (calls ?wh)) DEFAULT ?msgs 1536 = Inl ''stream down''"
    by (simp add: env_ends_first_def no_stream_def)
  have c0: "calls ?wh = []" by code_simp
  have rr: "fst ?ro = Inr (''Soup '' @ END)" by code_simp
  have pp: "fst (persist env_ends_first (new_user_message eggs_body) (''Soup '' @ END) (snd ?ro)) = Inr ()"
    by code_simp
  from streaming_fallback_single_call [OF h1 h2 h3 h4 refl h6]
  obtain r w2 where t: "?ro = (r, w2)"
    "calls (snd (generateStreaming env_ends_first eggs_body empty_world))
       = calls ?wh @ [stream_call DEFAULT ?msgs, text_call DEFAULT ?msgs 1536]"
    "\<forall>answer. r = Inr answer
        \<and> fst (persist env_ends_first (new_user_message eggs_body) answer w2) = Inr () \<longrightarrow>
        fst (generateStreaming env_ends_first eggs_body empty_world)
          = RecipeResponse DEFAULT answer (Some ''Stream fallback used.'')"
    by blast
  from t(1) rr have r: "r = Inr (''Soup '' @ END)" and w2: "w2 = snd ?ro" by simp_all
  from t(3) r w2 pp have g1: "fst (generateStreaming env_ends_first eggs_body empty_world)
       = RecipeResponse DEFAULT (''Soup '' @ END) (Some ''Stream fallback used.'')"
    by blast
  from t(2) c0 have g2: "length (calls (snd (generateStreaming env_ends_first eggs_body empty_world))) = 2"
    by simp

  let ?wd = "snd (stub_history env_all_down empty_world)"
  let ?rd = "runOnce env_all_down DEFAULT False 1536 ?msgs
               (?wd\<lparr>calls := calls ?wd @ [stream_call DEFAULT ?msgs]\<rparr>)"
  have "fst (stub_history env_all_down empty_world) = Inr []" by code_simp
  then have d4: "stub_history env_all_down empty_world = (Inr [], ?wd)"
    by (metis prod.collapse)
  have d6: "ai_run_stream env_all_down (length (calls ?wd)) DEFAULT ?msgs 1536 = Inl ''stream down''"
    by (simp add: env_all_down_def no_stream_def)
  have dr: "fst ?rd = Inl ''model down''" by code_simp
  from streaming_fallback_single_call [OF h1 h2 h3 d4 refl d6]
  obtain rd wd where d: "?rd = (rd, wd)"
    "\<forall>x. rd = Inl x \<longrightarrow> fst (generateStreaming env_all_down eggs_body empty_world)
        = ErrorResponse 500 ''AI streaming failed'' (Some ''stream down'')"
    by blast
  from d(1) dr have "rd = Inl ''model down''" by simp
  with d(2) have g3: "fst (generateStreaming env_all_down eggs_body empty_world)
       = ErrorResponse 500 ''AI streaming failed'' (Some ''stream down'')"
    by simp
  from h1 h2 h3 f4 h6 g1 g2 g3 show ?thesis by simp
qed

section \<open>Failures of the session store\<close>

lemma stream_answer_despite_store:
  assumes "ingredients_of b \<noteq> []"
    and "prompt_error (ingredients_of b) = None"
    and "resolve_field (model_field (body_fields b)) = Inr md"
    and "stub_history e w = (Inr history, w0)"
    and "ai_run_stream e (length (calls w0)) md
           (build_messages history (new_user_message b)) 1536 = Inr s"
  shows "fst (generateStreaming e b w) = StreamResponse s"
  using assms generateStreaming_after_history [OF assms(1,3,4)]
  by (simp add: answer_stream_def run_stream_def Let_def)

text \<open>
  C3, at a session store that answers the history read and rejects every append, with a
  client whose every answer is complete: both attempts of the non-streaming endpoint
  assemble their text and fail at the first append, and the answer is the 500 error with
  the detail of the store; the streaming endpoint, after a failed stream call, gets its
  text from the second call and answers with a 500 error too.
\<close>

theorem append_failure_fails_request:
  "fst (generate env_store_down eggs_body empty_world)
     = ErrorResponse 500 ''AI request failed'' (Some ''store down'')
   \<and> map call_model (calls (snd (generate env_store_down eggs_body empty_world)))
     = [DEFAULT, fallback]
   \<and> fst (assemble env_store_down DEFAULT True primary_prompt
             (build_messages [] (new_user_message eggs_body)) [] (new_user_message eggs_body)
             (snd (stub_history env_store_down empty_world)))
     = Inr (''Soup '' @ END)
   \<and> fst (generateStreaming env_store_down eggs_body empty_world)
     = ErrorResponse 500 ''AI streaming failed'' (Some ''stream down'')"
  by code_simp

section \<open>The sentinel in the returned text\<close>

lemma generate_text_from_attempt:
  assumes "fst (generate e b w) = RecipeResponse md answer note"
  shows "\<exists>json prompt history w0 w1.
           attempt e md json prompt (build_messages history (new_user_message b)) history
             (new_user_message b) w0 = (Inr answer, w1)"
proof -
  from assms have ne: "ingredients_of b \<noteq> []"
    by (auto simp: generate_def split: if_splits sum.splits)
  from assms ne obtain md0 where rf: "resolve_field (model_field (body_fields b)) = Inr md0"
    by (cases "resolve_field (model_field (body_fields b))")
      (auto simp: generate_def split: if_splits)
  from assms ne rf obtain history w0 where sh: "stub_history e w = (Inr history, w0)"
    by (cases "stub_history e w")
      (auto simp: generate_def ingredients_of_parsed split: sum.splits)
  from generate_after_history [OF ne rf sh] assms
  have ar: "fst (answer_recipe e md0 b history w0) = RecipeResponse md answer note"
    by simp
  then have pe: "prompt_error (ingredients_of b) = None"
    by (auto simp: answer_recipe_def split: option.splits)
  let ?msgs = "build_messages history (new_user_message b)"
  obtain r1 w1 where a1: "attempt e md0 True primary_prompt ?msgs history (new_user_message b) w0 = (r1, w1)"
    by (cases "attempt e md0 True primary_prompt ?msgs history (new_user_message b) w0")
  obtain r2 w2 where a2: "attempt e fallback False fallback_prompt ?msgs history (new_user_message b) w1 = (r2, w2)"
    by (cases "attempt e fallback False fallback_prompt ?msgs history (new_user_message b) w1")
  from answer_recipe_after_first_attempt [OF pe a1] a2 ar
  have "(r1 = Inr answer \<and> md = md0) \<or> (r2 = Inr answer \<and> md = fallback)"
    by (auto split: sum.splits if_splits)
  with a1 a2 show ?thesis by blast
qed

text \<open>
  C8, as stated, at a client whose answer holds one sentinel inside another: the inner
  one is removed, the rest closes up to a sentinel, and that is the text returned.
\<close>

theorem nested_sentinel_returned:
  "fst (generate env_nested eggs_body empty_world)
     = RecipeResponse DEFAULT ''<<<END_OF_RECIPE>>>'' None
   \<and> includesStr ''<<<END_OF_RECIPE>>>'' END"
  by code_simp

text \<open>
  C8, amended: the text that a successful request returns is the assembled text with
  every occurrence of the sentinel removed in one pass from the left, then trimmed. So
  when the assembled text is pieces without the sentinel with a sentinel between each
  two, the returned text is the pieces put together, trimmed; it holds no sentinel
  unless the pieces, put together, form one.
\<close>

theorem returned_text_stripped_once:
  assumes "fst (generate e b w) = RecipeResponse md answer note"
  shows "\<exists>json prompt history w0 w1 full.
           assemble e md json prompt (build_messages history (new_user_message b)) history
             (new_user_message b) w0 = (Inr full, w1)
         \<and> answer = trim (replaceAll full END [])
         \<and> (\<forall>segs. segs \<noteq> [] \<and> full = join segs END \<and> (\<forall>t\<in>set segs. \<not> includesStr t END) \<longrightarrow>
               answer = trim (concat segs)
               \<and> (\<not> includesStr (concat segs) END \<longrightarrow> \<not> includesStr answer END))"
proof -
  from generate_text_from_attempt [OF assms] obtain json prompt history w0 w1 where
    at: "attempt e md json prompt (build_messages history (new_user_message b)) history
           (new_user_message b) w0 = (Inr answer, w1)"
    by blast
  from attempt_text [OF at] obtain full w' where
    as: "assemble e md json prompt (build_messages history (new_user_message b)) history
           (new_user_message b) w0 = (Inr full, w')"
    and cl: "answer = trim (replaceAll full END [])"
    by blast
  have "\<forall>segs. segs \<noteq> [] \<and> full = join segs END \<and> (\<forall>t\<in>set segs. \<not> includesStr t END) \<longrightarrow>
          answer = trim (concat segs)
          \<and> (\<not> includesStr (concat segs) END \<longrightarrow> \<not> includesStr answer END)"
    using cl by (auto simp: replaceAll_join dest: trim_keeps_absent)
  with as cl show ?thesis by blast
qed

theorem returned_text_stripped_once_witness:
  "fst (generate env_ends_second eggs_body empty_world)
     = RecipeResponse DEFAULT ''Soup\<newline>Serve.'' None
   \<and> \<not> includesStr ''Soup\<newline>Serve.'' END
   \<and> fst (assemble env_ends_second DEFAULT True primary_prompt
            (build_messages [] (new_user_message eggs_body)) [] (new_user_message eggs_body)
            (snd (stub_history env_ends_second empty_world)))
       = Inr (join [''Soup\<newline>Serve. '', []] END)
   \<and> (\<exists>json prompt history w0 w1 full.
         assemble env_ends_second DEFAULT json prompt
           (build_messages history (new_user_message eggs_body)) history
           (new_user_message eggs_body) w0 = (Inr full, w1)
         \<and> ''Soup\<newline>Serve.'' = trim (replaceAll full END []))"
proof -
  have ev: "fst (generate env_ends_second eggs_body empty_world)
     = RecipeResponse DEFAULT ''Soup\<newline>Serve.'' None"
    by code_simp
  have no: "\<not> includesStr ''Soup\<newline>Serve.'' END"
    by code_simp
  have full: "fst (assemble env_ends_second DEFAULT True primary_prompt
            (build_messages [] (new_user_message eggs_body)) [] (new_user_message eggs_body)
            (snd (stub_history env_ends_second empty_world)))
       = Inr (join [''Soup\<newline>Serve. '', []] END)"
    by code_simp
  from returned_text_stripped_once [OF ev] ev no full show ?thesis
    by blast
qed

end
